theory Spec2Isabelle
  imports Main "HOL-Library.AList"
begin

section \<open>Python strings\<close>

text \<open>
  Strings are lists of characters, with codes 0 to 255. The helpers below are the \<open>str\<close>
  methods the scrapers and the dashboard call. \<open>strip\<close> removes the characters for which
  \<open>str.isspace\<close> holds: the codes 9 to 13 and 28 to 32, the next-line character
  \<open>0x85\<close> and the no-break space \<open>0xA0\<close>. \<open>lower\<close> maps \<open>A\<close>..\<open>Z\<close> to \<open>a\<close>..\<open>z\<close> and
  the capital letters \<open>0xC0\<close>..\<open>0xDE\<close> (without the sign \<open>0xD7\<close>) to the letter 32 codes
  higher.
\<close>

definition is_space :: "char \<Rightarrow> bool" where
  "is_space c =
     (let n = (of_char c :: nat)
      in (9 \<le> n \<and> n \<le> 13) \<or> (28 \<le> n \<and> n \<le> 32) \<or> n = 133 \<or> n = 160)"

definition strip :: "string \<Rightarrow> string" where
  "strip s = rev (dropWhile is_space (rev (dropWhile is_space s)))"

definition upper_letters :: string where
  "upper_letters =
     ''ABCDEFGHIJKLMNOPQRSTUVWXYZ'' @
     [CHR 0xC0, CHR 0xC1, CHR 0xC2, CHR 0xC3, CHR 0xC4, CHR 0xC5, CHR 0xC6, CHR 0xC7,
      CHR 0xC8, CHR 0xC9, CHR 0xCA, CHR 0xCB, CHR 0xCC, CHR 0xCD, CHR 0xCE, CHR 0xCF,
      CHR 0xD0, CHR 0xD1, CHR 0xD2, CHR 0xD3, CHR 0xD4, CHR 0xD5, CHR 0xD6,
      CHR 0xD8, CHR 0xD9, CHR 0xDA, CHR 0xDB, CHR 0xDC, CHR 0xDD, CHR 0xDE]"

definition lower_letters :: string where
  "lower_letters =
     ''abcdefghijklmnopqrstuvwxyz'' @
     [CHR 0xE0, CHR 0xE1, CHR 0xE2, CHR 0xE3, CHR 0xE4, CHR 0xE5, CHR 0xE6, CHR 0xE7,
      CHR 0xE8, CHR 0xE9, CHR 0xEA, CHR 0xEB, CHR 0xEC, CHR 0xED, CHR 0xEE, CHR 0xEF,
      CHR 0xF0, CHR 0xF1, CHR 0xF2, CHR 0xF3, CHR 0xF4, CHR 0xF5, CHR 0xF6,
      CHR 0xF8, CHR 0xF9, CHR 0xFA, CHR 0xFB, CHR 0xFC, CHR 0xFD, CHR 0xFE]"

definition lower_char :: "char \<Rightarrow> char" where
  "lower_char c = (case map_of (zip upper_letters lower_letters) c of None \<Rightarrow> c | Some d \<Rightarrow> d)"

definition lower :: "string \<Rightarrow> string" where
  "lower s = map lower_char s"

text \<open>\<open>s.startswith(p)\<close>\<close>

definition startswith :: "string \<Rightarrow> string \<Rightarrow> bool" where
  "startswith s p = (take (length p) s = p)"

text \<open>\<open>p in s\<close> on strings\<close>

fun contains :: "string \<Rightarrow> string \<Rightarrow> bool" where
  "contains p [] = (p = [])"
| "contains p (c # cs) = (startswith (c # cs) p \<or> contains p cs)"

text \<open>
  \<open>s.split(sep, 1)[1]\<close>: the text after the first occurrence of \<open>sep\<close>. When \<open>sep\<close> does
  not occur the split has one element and the index raises; that is \<open>None\<close> here.
\<close>

fun after_sep :: "string \<Rightarrow> string \<Rightarrow> string option" where
  "after_sep sep [] = None"
| "after_sep sep (c # cs) =
     (if startswith (c # cs) sep then Some (drop (length sep) (c # cs)) else after_sep sep cs)"

text \<open>\<open>s.rstrip("\n")\<close>\<close>

definition rstrip_nl :: "string \<Rightarrow> string" where
  "rstrip_nl s = rev (dropWhile (\<lambda>c. c = CHR 0x0A) (rev s))"

text \<open>\<open>sep.join(parts)\<close>\<close>

fun join :: "string \<Rightarrow> string list \<Rightarrow> string" where
  "join sep [] = []"
| "join sep [x] = x"
| "join sep (x # y # ys) = x @ sep @ join sep (y # ys)"

datatype exn = WebDriverException | IndexError | ValueError

section \<open>The job dictionaries\<close>

text \<open>
  A job is a Python dict from field names to strings, modelled as an association list
  in insertion order. \<open>d[k] = v\<close> is \<open>AList.update k v d\<close>.
\<close>

type_synonym job = "(string \<times> string) list"

section \<open>main.py: parse\_jobs\_file\<close>

text \<open>The dict literal a \<open>Job #\<close> line starts a record with.\<close>

definition new_job :: "string \<Rightarrow> job" where
  "new_job source =
     [(''source'', source), (''title'', ''''), (''company'', ''''), (''experience'', ''''),
      (''salary'', ''''), (''job_function'', ''''), (''industry'', ''''),
      (''specialization'', ''''), (''graduate_courses'', ''''),
      (''post_graduate_courses'', ''''), (''employment_type'', ''''), (''job_type'', ''''),
      (''gender'', ''''), (''url'', ''''), (''description'', ''''), (''skills'', '''')]"

definition file_keys :: "string list" where
  "file_keys =
     [''source'', ''title'', ''company'', ''experience'', ''salary'', ''job_function'',
      ''industry'', ''specialization'', ''graduate_courses'', ''post_graduate_courses'',
      ''employment_type'', ''job_type'', ''gender'', ''url'', ''description'', ''skills'']"

text \<open>\<open>current[key] = line.split(label, 1)[1].strip()\<close>\<close>

definition set_field :: "string \<Rightarrow> string \<Rightarrow> string \<Rightarrow> job \<Rightarrow> exn + job" where
  "set_field key label line current =
     (case after_sep label line of
        None \<Rightarrow> Inl IndexError
      | Some v \<Rightarrow> Inr (AList.update key (strip v) current))"

text \<open>The \<open>if\<close>/\<open>elif\<close> chain over the known labels, in the source's order.\<close>

definition parse_field :: "string \<Rightarrow> job \<Rightarrow> exn + job" where
  "parse_field line current =
     (if startswith line ''Title:'' then set_field ''title'' ''Title:'' line current
      else if startswith line ''Company:'' then set_field ''company'' ''Company:'' line current
      else if startswith line ''Experience:''
        then set_field ''experience'' ''Experience:'' line current
      else if startswith line ''Salary:'' then set_field ''salary'' ''Salary:'' line current
      else if startswith line ''Job Function:''
        then set_field ''job_function'' ''Job Function:'' line current
      else if startswith line ''Industry:'' then set_field ''industry'' ''Industry:'' line current
      else if startswith line ''Specialization:''
        then set_field ''specialization'' ''Specialization:'' line current
      else if startswith line ''Graduate Courses:''
        then set_field ''graduate_courses'' ''Graduate Courses:'' line current
      else if startswith line ''Post Graduate Courses:''
        then set_field ''post_graduate_courses'' ''Post Graduate Courses:'' line current
      else if startswith line ''Employment Type:''
        then set_field ''employment_type'' ''Employment Type:'' line current
      else if startswith line ''Job Type:'' then set_field ''job_type'' ''Job Type:'' line current
      else if startswith line ''Gender:'' then set_field ''gender'' ''Gender:'' line current
      else if startswith line ''URL:'' then set_field ''url'' ''URL:'' line current
      else if startswith line ''Description:''
        then set_field ''description'' ''Description:'' line current
      else if startswith line ''Skills:'' then set_field ''skills'' ''Skills:'' line current
      else Inr current)"

text \<open>
  One iteration of \<open>for raw_line in f\<close>. The loop state is \<open>(jobs, current)\<close>; \<open>current\<close>
  is \<open>None\<close> until the first \<open>Job #\<close> line. \<open>if current:\<close> tests the dict for being
  non-empty.
\<close>

fun parse_line :: "string \<Rightarrow> string \<Rightarrow> job list \<times> job option \<Rightarrow> exn + job list \<times> job option"
  where
  "parse_line source raw_line (jobs, current) =
     (let line = rstrip_nl raw_line in
      if startswith line ''Job #'' then
        Inr ((case current of
                None \<Rightarrow> jobs
              | Some c \<Rightarrow> if c \<noteq> [] then jobs @ [c] else jobs),
             Some (new_job source))
      else
        (case current of
           None \<Rightarrow> Inr (jobs, None)
         | Some c \<Rightarrow>
             (case parse_field line c of
                Inl e \<Rightarrow> Inl e
              | Inr c' \<Rightarrow> Inr (jobs, Some c'))))"

fun parse_lines ::
  "string \<Rightarrow> string list \<Rightarrow> job list \<times> job option \<Rightarrow> exn + job list \<times> job option" where
  "parse_lines source [] st = Inr st"
| "parse_lines source (l # ls) st =
     (case parse_line source l st of
        Inl e \<Rightarrow> Inl e
      | Inr st' \<Rightarrow> parse_lines source ls st')"

text \<open>
  The file is the list of its raw lines, \<open>None\<close> when the path does not exist.
\<close>

definition parse_jobs_file :: "string list option \<Rightarrow> string \<Rightarrow> exn + job list" where
  "parse_jobs_file file source =
     (case file of
        None \<Rightarrow> Inr []
      | Some raw_lines \<Rightarrow>
          (case parse_lines source raw_lines ([], None) of
             Inl e \<Rightarrow> Inl e
           | Inr (jobs, current) \<Rightarrow>
               Inr (case current of
                      None \<Rightarrow> jobs
                    | Some c \<Rightarrow> if c \<noteq> [] then jobs @ [c] else jobs)))"

definition is_job_header :: "string \<Rightarrow> bool" where
  "is_job_header raw_line = startswith raw_line ''Job #''"

section \<open>Parsed pages\<close>

text \<open>
  A parsed page (a \<open>BeautifulSoup\<close> object) is a forest of nodes. A tag has a name,
  the tokens of its \<open>class\<close> attribute (empty when the attribute is absent), its other
  attributes and its children; a \<open>Str\<close> is a text node.
\<close>

datatype node =
    Tag (tname: string) (classes: "string list") (attrs: "(string \<times> string) list")
      (kids: "node list")
  | Str string
  where
    "tname (Str s) = []"
  | "classes (Str s) = []"
  | "attrs (Str s) = []"
  | "kids (Str s) = []"

type_synonym soup = "node list"

text \<open>
  A tag together with where it sits: its ancestors, nearest first, and the nodes that
  follow it under the same parent. This is what \<open>find_parent\<close>, \<open>.parent\<close> and
  \<open>find_next_siblings\<close> read.
\<close>

datatype loc = Loc (here: node) (parents: "node list") (following: "node list")

text \<open>All tags below a forest, in document order (the order of \<open>find_all\<close>).\<close>

fun locs :: "node list \<Rightarrow> node list \<Rightarrow> loc list" where
  "locs anc [] = []"
| "locs anc (Str s # rest) = locs anc rest"
| "locs anc (Tag n c a ks # rest) =
     Loc (Tag n c a ks) anc rest # locs (Tag n c a ks # anc) ks @ locs anc rest"

text \<open>All text nodes below a forest, in document order.\<close>

fun strings :: "node list \<Rightarrow> string list" where
  "strings [] = []"
| "strings (Str s # rest) = s # strings rest"
| "strings (Tag n c a ks # rest) = strings ks @ strings rest"

text \<open>
  \<open>get_text(separator, strip)\<close>: with \<open>strip\<close> every string is stripped and the empty
  ones are skipped.
\<close>

definition all_strings :: "bool \<Rightarrow> node list \<Rightarrow> string list" where
  "all_strings strp ns =
     (if strp then filter (\<lambda>s. s \<noteq> []) (map strip (strings ns)) else strings ns)"

definition get_text :: "string \<Rightarrow> bool \<Rightarrow> node \<Rightarrow> string" where
  "get_text sep strp n = join sep (all_strings strp (kids n))"

definition soup_get_text :: "soup \<Rightarrow> string" where
  "soup_get_text sp = join [] (all_strings False sp)"

text \<open>
  Matching the \<open>class_\<close> argument. A string matches when it equals one token or the
  tokens joined by spaces; a function is tried on every token and then on the joined
  tokens.
\<close>

definition class_is :: "string \<Rightarrow> node \<Rightarrow> bool" where
  "class_is v n = (v \<in> set (classes n) \<or> join '' '' (classes n) = v)"

definition class_matches :: "(string \<Rightarrow> bool) \<Rightarrow> node \<Rightarrow> bool" where
  "class_matches f n = ((\<exists>c\<in>set (classes n). f c) \<or> f (join '' '' (classes n)))"

definition find_all :: "string list \<Rightarrow> (node \<Rightarrow> bool) \<Rightarrow> node list \<Rightarrow> loc list" where
  "find_all names pred ns =
     filter (\<lambda>l. tname (here l) \<in> set names \<and> pred (here l)) (locs [] ns)"

definition find_all_tags :: "string list \<Rightarrow> (node \<Rightarrow> bool) \<Rightarrow> node list \<Rightarrow> node list" where
  "find_all_tags names pred ns = map here (find_all names pred ns)"

definition find_tag :: "string list \<Rightarrow> (node \<Rightarrow> bool) \<Rightarrow> node list \<Rightarrow> node option" where
  "find_tag names pred ns =
     (case find_all_tags names pred ns of [] \<Rightarrow> None | t # _ \<Rightarrow> Some t)"

definition is_tag :: "node \<Rightarrow> bool" where
  "is_tag n = (case n of Tag _ _ _ _ \<Rightarrow> True | Str _ \<Rightarrow> False)"

text \<open>\<open>find_next_siblings()\<close>: the tags among the following siblings.\<close>

definition find_next_siblings :: "loc \<Rightarrow> node list" where
  "find_next_siblings l = filter is_tag (following l)"

definition has_href :: "node \<Rightarrow> bool" where
  "has_href n = (map_of (attrs n) ''href'' \<noteq> None)"

definition get_href :: "node \<Rightarrow> string" where
  "get_href n = (case map_of (attrs n) ''href'' of None \<Rightarrow> [] | Some h \<Rightarrow> h)"

section \<open>Timejobs\_scraper.py\<close>

subsection \<open>Pagination\<close>

text \<open>
  \<open>str.isdigit\<close> holds of a non-empty string of decimal digits and superscript digits
  (\<open>0xB2\<close>, \<open>0xB3\<close>, \<open>0xB9\<close>); \<open>int\<close> reads decimal digits only and raises \<open>ValueError\<close>
  on a superscript.
\<close>

definition isdecimal_char :: "char \<Rightarrow> bool" where
  "isdecimal_char c = (c \<in> set ''0123456789'')"

definition isdigit :: "string \<Rightarrow> bool" where
  "isdigit s =
     (s \<noteq> [] \<and> (\<forall>c\<in>set s. isdecimal_char c \<or> c \<in> set [CHR 0xB2, CHR 0xB3, CHR 0xB9]))"

definition digit_val :: "char \<Rightarrow> int" where
  "digit_val c = int (of_char c) - 48"

definition int_of_str :: "string \<Rightarrow> exn + int" where
  "int_of_str s =
     (if s \<noteq> [] \<and> list_all isdecimal_char s
      then Inr (foldl (\<lambda>a c. 10 * a + digit_val c) 0 s) else Inl ValueError)"

text \<open>
  The loop over the buttons runs under \<open>try\<close>: when \<open>int\<close> raises, \<open>get_total_pages\<close>
  returns 1.
\<close>

fun max_page_loop :: "node list \<Rightarrow> int \<Rightarrow> exn + int" where
  "max_page_loop [] max_page = Inr max_page"
| "max_page_loop (button # buttons) max_page =
     (let text = get_text [] True button in
      if isdigit text then
        (case int_of_str text of
           Inl e \<Rightarrow> Inl e
         | Inr page_num \<Rightarrow>
             if page_num > 1 then max_page_loop buttons (max max_page page_num)
             else max_page_loop buttons max_page)
      else max_page_loop buttons max_page)"

definition get_total_pages :: "soup \<Rightarrow> int" where
  "get_total_pages sp =
     (case max_page_loop (find_all_tags [''button''] (\<lambda>n. True) sp) 1 of
        Inl e \<Rightarrow> 1
      | Inr max_page \<Rightarrow> max_page)"

definition check_for_no_results :: "soup \<Rightarrow> bool" where
  "check_for_no_results sp =
     (let page_text = lower (soup_get_text sp) in
      contains ''no jobs matching'' page_text \<or> contains ''no results found'' page_text)"

subsection \<open>Job links of a listing page\<close>

datatype stub = Stub (title: string) (url: string)

definition resolve_title :: "loc \<Rightarrow> string" where
  "resolve_title link =
     (case find (\<lambda>p. tname p = ''div'') (parents link) of
        None \<Rightarrow> ''N/A''
      | Some parent \<Rightarrow>
          (case find_tag [''h2''] (\<lambda>n. True) (kids parent) of
             None \<Rightarrow> ''N/A''
           | Some heading \<Rightarrow> get_text [] True heading))"

definition full_url :: "string \<Rightarrow> string \<Rightarrow> string" where
  "full_url base_url href = (if startswith href ''/'' then base_url @ href else href)"

text \<open>
  The loop over \<open>all_links\<close>, with its two variables \<open>jobs\<close> and \<open>seen_urls\<close>.
\<close>

fun links_loop :: "string \<Rightarrow> loc list \<Rightarrow> string set \<Rightarrow> stub list \<Rightarrow> stub list" where
  "links_loop base_url [] seen_urls jobs = jobs"
| "links_loop base_url (link # links) seen_urls jobs =
     (let href = get_href (here link) in
      if \<not> contains ''/job-detail/'' href then links_loop base_url links seen_urls jobs
      else if href \<in> seen_urls then links_loop base_url links seen_urls jobs
      else
        (let ttl = resolve_title link in
         if ttl \<noteq> [] \<and> ttl \<noteq> ''N/A''
         then links_loop base_url links (insert href seen_urls)
                (jobs @ [Stub ttl (full_url base_url href)])
         else links_loop base_url links (insert href seen_urls) jobs))"

definition all_links :: "soup \<Rightarrow> loc list" where
  "all_links sp = find_all [''a''] has_href sp"

definition extract_jobs_from_page :: "soup \<Rightarrow> string \<Rightarrow> stub list" where
  "extract_jobs_from_page sp base_url = links_loop base_url (all_links sp) {} []"

subsection \<open>Fields of a detail page\<close>

definition extract_company_from_detail :: "soup \<Rightarrow> string" where
  "extract_company_from_detail sp =
     (case find_tag [''h3''] (class_is ''inline mr-2'') sp of
        None \<Rightarrow> ''N/A''
      | Some h2 \<Rightarrow> get_text [] True h2)"

text \<open>The nonempty texts of the tags that follow a heading under the same parent.\<close>

definition sibling_parts :: "loc \<Rightarrow> string list" where
  "sibling_parts heading =
     filter (\<lambda>txt. txt \<noteq> []) (map (get_text '' '' True) (find_next_siblings heading))"

definition description_heading :: "soup \<Rightarrow> loc option" where
  "description_heading sp =
     find (\<lambda>tag. contains ''description'' (lower (get_text [] True (here tag))))
       (find_all [''h2'', ''h3'', ''h4'', ''h5''] (\<lambda>n. True) sp)"

definition heading_description :: "soup \<Rightarrow> string" where
  "heading_description sp =
     (case description_heading sp of
        None \<Rightarrow> ''N/A''
      | Some desc_heading \<Rightarrow>
          (let parts = sibling_parts desc_heading in
           if parts \<noteq> [] then join '' '' parts else ''N/A''))"

definition possible_blocks :: "soup \<Rightarrow> node list" where
  "possible_blocks sp =
     find_all_tags [''div'', ''section'', ''article'']
       (class_matches (\<lambda>c. c \<noteq> [] \<and> (contains ''jd-cont'' c \<or> contains ''job-desc'' c
                                        \<or> contains ''job-description'' c))) sp"

definition long_text :: "node \<Rightarrow> bool" where
  "long_text block = (let text = get_text '' '' True block in text \<noteq> [] \<and> length text > 50)"

definition extract_description_from_detail :: "soup \<Rightarrow> string" where
  "extract_description_from_detail sp =
     (let rtd = find_tag [''div''] (class_matches (\<lambda>c. c \<noteq> [] \<and> contains ''rtd-content'' c)) sp
      in case (case rtd of None \<Rightarrow> None
                         | Some r \<Rightarrow> if long_text r then Some (get_text '' '' True r) else None) of
           Some text \<Rightarrow> text
         | None \<Rightarrow>
             (case find long_text (possible_blocks sp) of
                Some block \<Rightarrow> get_text '' '' True block
              | None \<Rightarrow> heading_description sp))"

definition skill_excludes :: "string list" where
  "skill_excludes =
     [''year'', ''experience'', ''about'', ''company'', ''description'', ''required'',
      ''please'', ''call'', ''opening'', ''job id'', ''location'']"

definition is_skill_text :: "string \<Rightarrow> bool" where
  "is_skill_text sibling_text =
     (sibling_text \<noteq> [] \<and> length sibling_text > 0
      \<and> \<not> (\<exists>exclude\<in>set skill_excludes. contains exclude (lower sibling_text)))"

definition extract_skills_from_detail :: "soup \<Rightarrow> string" where
  "extract_skills_from_detail sp =
     (case find (\<lambda>element. contains ''key skill'' (lower (get_text [] True (here element))))
             (find_all [''h2'', ''h3'', ''h4'', ''h5'', ''heading''] (\<lambda>n. True) sp) of
        None \<Rightarrow> ''N/A''
      | Some skills_heading \<Rightarrow>
          (let siblings =
                 takeWhile (\<lambda>sibling. \<not> (tname sibling \<noteq> []
                                          \<and> startswith (lower (tname sibling)) ''h''))
                   (find_next_siblings skills_heading);
               skills = filter is_skill_text (map (get_text [] True) siblings)
           in if skills \<noteq> [] then join '', '' skills else ''N/A''))"

definition meta_spans :: "soup \<Rightarrow> node list" where
  "meta_spans sp = find_all_tags [''span''] (class_is ''mr-2 inline flex items-center'') sp"

text \<open>\<open>spans[1]\<close> is read without a length test: it raises on fewer than two spans.\<close>

definition extract_experience_from_detail :: "soup \<Rightarrow> exn + string" where
  "extract_experience_from_detail sp =
     (let spans = meta_spans sp in
      if 1 < length spans then Inr (get_text [] True (spans ! 1)) else Inl IndexError)"

definition extract_salary_from_detail :: "soup \<Rightarrow> string" where
  "extract_salary_from_detail sp =
     (let spans = meta_spans sp in
      if length spans \<ge> 3 then get_text '' '' True (spans ! 2) else ''N/A'')"

text \<open>
  The body of \<open>extract_label_value\<close> runs under \<open>try\<close>; an exception there (the index
  into the split) falls through to the sentinel.
\<close>

definition extract_label_value :: "soup \<Rightarrow> string \<Rightarrow> string" where
  "extract_label_value detail_soup label_text =
     (let candidates = find_all_tags [''li'', ''div'', ''span'', ''p''] (\<lambda>n. True) detail_soup;
          target_prefix = lower (label_text @ '':'')
      in case find (\<lambda>tag. startswith (lower (get_text '' '' True tag)) target_prefix) candidates of
           None \<Rightarrow> ''N/A''
         | Some tag \<Rightarrow>
             (case after_sep '':'' (get_text '' '' True tag) of
                None \<Rightarrow> ''N/A''
              | Some v \<Rightarrow> strip v))"

subsection \<open>The crawl\<close>

text \<open>
  What the browser and the site answer is a parameter of the run: whether
  \<open>get_driver()\<close> raises, what the first load of page 1 gives, what the load of each
  page of the walk gives, and what the load of the \<open>idx\<close>-th job's URL gives. A load
  gives the parsed page or raises. The observable actions of a run are its page loads
  and \<open>driver.quit()\<close>.
\<close>

record world =
  get_driver :: "exn option"
  first_page :: "exn + soup"
  listing :: "int \<Rightarrow> exn + soup"
  detail :: "nat \<Rightarrow> string \<Rightarrow> exn + soup"

datatype event = GetListing int | GetDetail string | Quit

definition base_url :: string where
  "base_url = ''https://www.timesjobs.com''"

text \<open>\<open>if max_pages and max_pages < total_pages: total_pages = max_pages\<close>\<close>

definition limit_pages :: "int option \<Rightarrow> int \<Rightarrow> int" where
  "limit_pages max_pages total_pages =
     (case max_pages of
        None \<Rightarrow> total_pages
      | Some k \<Rightarrow> if k \<noteq> 0 \<and> k < total_pages then k else total_pages)"

text \<open>
  The loop over \<open>range(1, total_pages + 1)\<close>: a page that raises is skipped, a page
  with the no-results text ends the loop.
\<close>

fun collect_links :: "world \<Rightarrow> int list \<Rightarrow> stub list \<times> event list" where
  "collect_links w [] = ([], [])"
| "collect_links w (page_num # rest) =
     (case listing w page_num of
        Inl e \<Rightarrow>
          (let (jobs, evs) = collect_links w rest in (jobs, GetListing page_num # evs))
      | Inr sp \<Rightarrow>
          if check_for_no_results sp then ([], [GetListing page_num])
          else
            (let page_jobs = extract_jobs_from_page sp base_url;
                 (jobs, evs) = collect_links w rest
             in (page_jobs @ jobs, GetListing page_num # evs)))"

definition job_data :: "soup \<Rightarrow> stub \<Rightarrow> exn + job" where
  "job_data detail_soup jb =
     (let company = extract_company_from_detail detail_soup;
          description = extract_description_from_detail detail_soup;
          skills = extract_skills_from_detail detail_soup
      in case extract_experience_from_detail detail_soup of
           Inl e \<Rightarrow> Inl e
         | Inr experience \<Rightarrow>
             Inr [(''source'', ''TimesJobs''),
                  (''title'', title jb),
                  (''company'', company),
                  (''url'', url jb),
                  (''description'', description),
                  (''experience'', experience),
                  (''salary'', extract_salary_from_detail detail_soup),
                  (''job_function'', extract_label_value detail_soup ''Job Function''),
                  (''industry'', extract_label_value detail_soup ''Industry''),
                  (''specialization'', extract_label_value detail_soup ''Specialization''),
                  (''graduate_courses'', extract_label_value detail_soup ''Graduate Courses''),
                  (''post_graduate_courses'',
                     extract_label_value detail_soup ''Post Graduate Courses''),
                  (''employment_type'', extract_label_value detail_soup ''Employment Type''),
                  (''job_type'', extract_label_value detail_soup ''Job Type''),
                  (''gender'', extract_label_value detail_soup ''Gender''),
                  (''skills'', skills)])"

text \<open>
  The loop over \<open>enumerate(all_jobs, 1)\<close>: a job whose load or extraction raises is
  skipped.
\<close>

fun detail_pass :: "world \<Rightarrow> nat \<Rightarrow> stub list \<Rightarrow> job list \<times> event list" where
  "detail_pass w idx [] = ([], [])"
| "detail_pass w idx (jb # rest) =
     (let (jobs_data, evs) = detail_pass w (Suc idx) rest in
      case detail w idx (url jb) of
        Inl e \<Rightarrow> (jobs_data, GetDetail (url jb) # evs)
      | Inr detail_soup \<Rightarrow>
          (case job_data detail_soup jb of
             Inl e \<Rightarrow> (jobs_data, GetDetail (url jb) # evs)
           | Inr jd \<Rightarrow> (jd # jobs_data, GetDetail (url jb) # evs)))"

text \<open>
  The result is what the call returns (\<open>Inr\<close>) or the exception it lets through
  (\<open>Inl\<close>), with the actions of the run in order. \<open>get_driver()\<close> is called before the
  \<open>try\<close>; everything after it is inside, with \<open>driver.quit()\<close> in \<open>finally\<close>.
\<close>

definition scrape_all_jobs :: "world \<Rightarrow> int option \<Rightarrow> (exn + job list) \<times> event list" where
  "scrape_all_jobs w max_pages =
     (case get_driver w of
        Some e \<Rightarrow> (Inl e, [])
      | None \<Rightarrow>
          (case first_page w of
             Inl e \<Rightarrow> (Inr [], [GetListing 1, Quit])
           | Inr sp \<Rightarrow>
               if check_for_no_results sp then (Inr [], [GetListing 1, Quit])
               else
                 (let total_pages = limit_pages max_pages (get_total_pages sp);
                      (all_jobs, evs) = collect_links w [1..total_pages]
                  in if length all_jobs = 0 then (Inr [], GetListing 1 # evs @ [Quit])
                     else
                       (let (jobs_data, evs') = detail_pass w 1 all_jobs
                        in (Inr jobs_data, GetListing 1 # evs @ evs' @ [Quit])))))"

section \<open>Talent\_scraper.py\<close>

text \<open>\<open>a or b\<close> on two results of \<open>find\<close>: the first that is not \<open>None\<close>.\<close>

definition or_else :: "'a option \<Rightarrow> 'a option \<Rightarrow> 'a option" where
  "or_else a b = (case a of None \<Rightarrow> b | Some x \<Rightarrow> Some x)"

text \<open>
  The four rounds of \<open>if container.parent and container.parent.name == "div"\<close>, on a
  tag and its ancestors. The parent of a top-level tag is the document, which is not
  a \<open>div\<close>.
\<close>

fun climb :: "nat \<Rightarrow> node \<Rightarrow> node list \<Rightarrow> node" where
  "climb 0 container ps = container"
| "climb (Suc k) container [] = container"
| "climb (Suc k) container (p # ps) =
     (if tname p = ''div'' then climb k p ps else climb k container (p # ps))"

definition extract_talent_description :: "soup \<Rightarrow> string" where
  "extract_talent_description detail_soup =
     (let desc_div =
            find_tag [''div''] (class_matches (\<lambda>c. c \<noteq> [] \<and> contains ''sc-fcd630a4-10'' c))
              detail_soup
      in case (case desc_div of None \<Rightarrow> None
                 | Some d \<Rightarrow> if long_text d then Some (get_text '' '' True d) else None) of
           Some text \<Rightarrow> text
         | None \<Rightarrow>
             (case find (\<lambda>b. contains ''job description'' (lower (get_text [] True (here b)))
                          \<and> long_text (climb 4 (here b) (parents b)))
                     (find_all [''b''] (\<lambda>n. True) detail_soup) of
                Some b \<Rightarrow> get_text '' '' True (climb 4 (here b) (parents b))
              | None \<Rightarrow>
                  (case or_else
                          (find_tag [''div'']
                             (\<lambda>n. map_of (attrs n) ''id'' = Some ''job-description'') detail_soup)
                          (find_tag [''div''] (class_is ''job-description'') detail_soup) of
                     None \<Rightarrow> ''Description not found.''
                   | Some desc_container \<Rightarrow>
                       (let text = get_text '' '' True desc_container in
                        if text \<noteq> [] then text else ''Description not found.''))))"

record talent_world =
  talent_get_driver :: "exn option"
  talent_listing :: "exn + soup"
  talent_detail :: "nat \<Rightarrow> string \<Rightarrow> exn + soup"

definition talent_base_url :: string where
  "talent_base_url = ''https://in.talent.com''"

definition job_cards :: "soup \<Rightarrow> node list" where
  "job_cards sp =
     (let cards = find_all_tags [''div''] (class_is ''gXOxBJ'') sp in
      if cards = [] then find_all_tags [''div''] (class_is ''link-job-wrap'') sp else cards)"

definition card_title :: "node \<Rightarrow> string" where
  "card_title crd =
     (case or_else (find_tag [''h2''] (class_is ''card__job-title'') (kids crd))
             (or_else (find_tag [''div''] (class_is ''card__job-title'') (kids crd))
                (find_tag [''h2''] (\<lambda>n. True) (kids crd))) of
        None \<Rightarrow> ''N/A''
      | Some title_tag \<Rightarrow> strip (get_text [] False title_tag))"

fun cards_loop :: "node list \<Rightarrow> stub list" where
  "cards_loop [] = []"
| "cards_loop (crd # cards) =
     (let ttl = card_title crd in
      case find_tag [''a''] has_href (kids crd) of
        None \<Rightarrow> cards_loop cards
      | Some link_tag \<Rightarrow>
          Stub ttl (full_url talent_base_url (get_href link_tag)) # cards_loop cards)"

definition talent_company :: "soup \<Rightarrow> string" where
  "talent_company detail_soup =
     (case or_else (find_tag [''div''] (class_is ''job-header__company'') detail_soup)
             (find_tag [''span''] (class_is ''hwHBRV'') detail_soup) of
        None \<Rightarrow> ''N/A''
      | Some company_tag \<Rightarrow> strip (get_text [] False company_tag))"

definition talent_job_data :: "soup \<Rightarrow> stub \<Rightarrow> job" where
  "talent_job_data detail_soup jb =
     [(''source'', ''Talent.com''),
      (''title'', title jb),
      (''company'', talent_company detail_soup),
      (''url'', url jb),
      (''description'', extract_talent_description detail_soup),
      (''experience'', []),
      (''salary'', []),
      (''job_function'', []),
      (''industry'', []),
      (''specialization'', []),
      (''graduate_courses'', []),
      (''post_graduate_courses'', []),
      (''employment_type'', []),
      (''job_type'', []),
      (''gender'', []),
      (''skills'', [])]"

fun talent_detail_pass :: "talent_world \<Rightarrow> nat \<Rightarrow> stub list \<Rightarrow> job list \<times> event list" where
  "talent_detail_pass tw idx [] = ([], [])"
| "talent_detail_pass tw idx (jb # rest) =
     (let (jobs_data, evs) = talent_detail_pass tw (Suc idx) rest in
      case talent_detail tw idx (url jb) of
        Inl e \<Rightarrow> (jobs_data, GetDetail (url jb) # evs)
      | Inr detail_soup \<Rightarrow>
          (talent_job_data detail_soup jb # jobs_data, GetDetail (url jb) # evs))"

text \<open>
  As in the other scraper, \<open>get_driver()\<close> is called before the \<open>try\<close>. The listing
  page is loaded once; there is no test for a no-results text.
\<close>

definition scrape_talent_com :: "talent_world \<Rightarrow> int \<Rightarrow> (exn + job list) \<times> event list" where
  "scrape_talent_com tw page =
     (case talent_get_driver tw of
        Some e \<Rightarrow> (Inl e, [])
      | None \<Rightarrow>
          (case talent_listing tw of
             Inl e \<Rightarrow> (Inr [], [GetListing page, Quit])
           | Inr sp \<Rightarrow>
               (let jobs_to_visit = cards_loop (job_cards sp);
                    (jobs_data, evs) = talent_detail_pass tw 1 jobs_to_visit
                in (Inr jobs_data, GetListing page # evs @ [Quit]))))"

section \<open>Notions used in the statements\<close>

text \<open>The listing pages and the detail pages a run loaded, in order.\<close>

fun listing_pages :: "event list \<Rightarrow> int list" where
  "listing_pages [] = []"
| "listing_pages (GetListing p # evs) = p # listing_pages evs"
| "listing_pages (ev # evs) = listing_pages evs"

fun detail_visits :: "event list \<Rightarrow> string list" where
  "detail_visits [] = []"
| "detail_visits (GetDetail u # evs) = u # detail_visits evs"
| "detail_visits (ev # evs) = detail_visits evs"

text \<open>The keys of the record schema.\<close>

definition schema_keys :: "string list" where
  "schema_keys =
     [''source'', ''title'', ''company'', ''url'', ''description'', ''experience'', ''salary'',
      ''job_function'', ''industry'', ''specialization'', ''graduate_courses'',
      ''post_graduate_courses'', ''employment_type'', ''job_type'', ''gender'', ''skills'']"

text \<open>Invariant of the parsing loop: every record has the keys of the dict literal.\<close>

definition wf_job :: "string \<Rightarrow> job \<Rightarrow> bool" where
  "wf_job source c = (map fst c = file_keys \<and> map_of c ''source'' = Some source)"

definition parse_inv :: "string \<Rightarrow> job list \<times> job option \<Rightarrow> bool" where
  "parse_inv source st =
     ((\<forall>r\<in>set (fst st). wf_job source r) \<and> (\<forall>c. snd st = Some c \<longrightarrow> wf_job source c))"

definition emitted :: "job list \<times> job option \<Rightarrow> nat" where
  "emitted st = length (fst st) + (case snd st of None \<Rightarrow> 0 | Some c \<Rightarrow> 1)"

text \<open>
  The lines of every record of a file: for each \<open>Job #\<close> line, in order, the lines
  that follow it up to the next \<open>Job #\<close> line.
\<close>

fun record_lines :: "string list \<Rightarrow> string list list" where
  "record_lines [] = []"
| "record_lines (l # ls) =
     (if is_job_header l
      then takeWhile (\<lambda>x. \<not> is_job_header x) ls # record_lines ls
      else record_lines ls)"

text \<open>The \<open>if\<close>/\<open>elif\<close> chain run over the lines of one record, from a given dict.\<close>

fun read_fields :: "string list \<Rightarrow> job \<Rightarrow> exn + job" where
  "read_fields [] current = Inr current"
| "read_fields (raw_line # raw_lines) current =
     (case parse_field (rstrip_nl raw_line) current of
        Inl e \<Rightarrow> Inl e
      | Inr c \<Rightarrow> read_fields raw_lines c)"

text \<open>The keys a line can set, each with the label that sets it.\<close>

definition field_labels :: "(string \<times> string) list" where
  "field_labels =
     [(''title'', ''Title:''), (''company'', ''Company:''), (''experience'', ''Experience:''),
      (''salary'', ''Salary:''), (''job_function'', ''Job Function:''),
      (''industry'', ''Industry:''), (''specialization'', ''Specialization:''),
      (''graduate_courses'', ''Graduate Courses:''),
      (''post_graduate_courses'', ''Post Graduate Courses:''),
      (''employment_type'', ''Employment Type:''), (''job_type'', ''Job Type:''),
      (''gender'', ''Gender:''), (''url'', ''URL:''), (''description'', ''Description:''),
      (''skills'', ''Skills:'')]"

text \<open>A line sets a field: it starts with the field's label and stores the stripped rest.\<close>

definition sets_field :: "string \<Rightarrow> job \<Rightarrow> job \<Rightarrow> bool" where
  "sets_field line c c' =
     (\<exists>key label. (key, label) \<in> set field_labels \<and> startswith line label
        \<and> c' = AList.update key (strip (drop (length label) line)) c)"

text \<open>The result of the loop: \<open>if current: jobs.append(current)\<close>.\<close>

definition finish :: "job list \<times> job option \<Rightarrow> job list" where
  "finish st =
     (case snd st of None \<Rightarrow> fst st | Some c \<Rightarrow> if c \<noteq> [] then fst st @ [c] else fst st)"

text \<open>
  The links of a page that the loop over \<open>all_links\<close> looks at, the first link of every
  \<open>href\<close> not yet in \<open>seen_urls\<close>, and the stub the loop makes of a link.
\<close>

definition href_of :: "loc \<Rightarrow> string" where
  "href_of l = get_href (here l)"

definition is_job_link :: "loc \<Rightarrow> bool" where
  "is_job_link l = contains ''/job-detail/'' (href_of l)"

definition job_links :: "soup \<Rightarrow> loc list" where
  "job_links sp = filter is_job_link (all_links sp)"

definition has_title :: "loc \<Rightarrow> bool" where
  "has_title l = (resolve_title l \<noteq> [] \<and> resolve_title l \<noteq> ''N/A'')"

definition stub_of :: "string \<Rightarrow> loc \<Rightarrow> stub" where
  "stub_of b l = Stub (resolve_title l) (full_url b (href_of l))"

fun firsts :: "string set \<Rightarrow> loc list \<Rightarrow> loc list" where
  "firsts seen [] = []"
| "firsts seen (l # ls) =
     (if \<not> is_job_link l then firsts seen ls
      else if href_of l \<in> seen then firsts seen ls
      else l # firsts (insert (href_of l) seen) ls)"

section \<open>Example pages and sites\<close>

text \<open>
  A result card, a result page with four pagination buttons, a page with the no-results
  text above a suggested job, and a detail page.
\<close>

definition ex_card :: "string \<Rightarrow> string \<Rightarrow> node" where
  "ex_card t h =
     Tag ''div'' [''job-card''] []
       [Tag ''h2'' [] [] [Str t], Tag ''a'' [] [(''href'', h)] [Str ''View job'']]"

definition ex_listing :: soup where
  "ex_listing =
     [ex_card ''Python Developer'' ''/job-detail/python-developer-1'',
      Tag ''button'' [] [] [Str ''1''], Tag ''button'' [] [] [Str ''2''],
      Tag ''button'' [] [] [Str ''3''], Tag ''button'' [] [] [Str ''4'']]"

definition ex_no_results :: soup where
  "ex_no_results =
     [Tag ''p'' [] [] [Str ''No jobs matching your search.''],
      ex_card ''Suggested job'' ''/job-detail/suggested-7'']"

definition ex_span :: "string \<Rightarrow> node" where
  "ex_span t = Tag ''span'' [''mr-2'', ''inline'', ''flex'', ''items-center''] [] [Str t]"

definition ex_detail :: soup where
  "ex_detail =
     [Tag ''h3'' [''inline'', ''mr-2''] [] [Str ''Acme''],
      ex_span ''Ahmedabad'', ex_span ''2-4 Years'', ex_span ''10-12 LPA'',
      Tag ''div'' [] []
        [Tag ''h2'' [] [] [Str ''Job Description''],
         Tag ''p'' [] [] [Str ''Build scrapers.''],
         Tag ''p'' [] [] [Str '' Maintain them. '']]]"

definition ex_world :: world where
  "ex_world =
     \<lparr>get_driver = None, first_page = Inr ex_listing,
      listing = (\<lambda>p. if p = 2 then Inr ex_no_results else Inr ex_listing),
      detail = (\<lambda>idx u. Inr ex_detail)\<rparr>"

text \<open>
  Sites: every page a result page; an empty search; every load failing; no browser;
  detail pages with a single meta span.
\<close>

definition ex_world_full :: world where
  "ex_world_full =
     \<lparr>get_driver = None, first_page = Inr ex_listing,
      listing = (\<lambda>p. Inr ex_listing), detail = (\<lambda>idx u. Inr ex_detail)\<rparr>"

definition ex_world_empty :: world where
  "ex_world_empty =
     \<lparr>get_driver = None, first_page = Inr ex_no_results,
      listing = (\<lambda>p. Inr ex_no_results), detail = (\<lambda>idx u. Inr ex_detail)\<rparr>"



definition ex_world_short_detail :: world where
  "ex_world_short_detail =
     \<lparr>get_driver = None, first_page = Inr ex_listing,
      listing = (\<lambda>p. Inr ex_listing), detail = (\<lambda>idx u. Inr [ex_span ''Ahmedabad''])\<rparr>"


definition ex_mixed_listing :: soup where
  "ex_mixed_listing =
     [Tag ''a'' [] [(''href'', ''/job-detail/untitled-3'')] [Str ''View job''],
      ex_card ''Python Developer'' ''/job-detail/python-developer-1'']"

definition ex_talent_listing :: soup where
  "ex_talent_listing =
     [Tag ''p'' [] [] [Str ''No results found in your area. Similar jobs:''],
      Tag ''div'' [''link-job-wrap''] []
        [Tag ''a'' [] [(''href'', ''/view?id=41'')] [Str ''Open'']]]"

definition ex_heading_page :: soup where
  "ex_heading_page =
     [Tag ''div'' [] []
        [Tag ''h2'' [] [] [Str ''Job Description''],
         Tag ''p'' [] [] [Str ''Build scrapers.''],
         Tag ''p'' [] [] [Str [CHR 0xA0]],
         Tag ''p'' [] [] [Str '' Maintain them. '']]]"



definition ex_talent_world :: talent_world where
  "ex_talent_world =
     \<lparr>talent_get_driver = None, talent_listing = Inr ex_talent_listing,
      talent_detail = (\<lambda>idx u. Inr ex_heading_page)\<rparr>"



section \<open>The dashboard's parser\<close>

lemma after_sep_startswith:
  "startswith line label \<Longrightarrow> label \<noteq> [] \<Longrightarrow>
   after_sep label line = Some (drop (length label) line)"
  by (cases line) (auto simp: startswith_def)

lemma set_field_ok:
  "startswith line label \<Longrightarrow> label \<noteq> [] \<Longrightarrow>
   set_field key label line c = Inr (AList.update key (strip (drop (length label) line)) c)"
  by (simp add: set_field_def after_sep_startswith)

lemma wf_new_job: "wf_job source (new_job source)"
  by (simp add: wf_job_def new_job_def file_keys_def)

lemma wf_job_nonempty [simp]: "\<not> wf_job source []"
  by (auto simp: wf_job_def file_keys_def)

lemma wf_update:
  "wf_job source c \<Longrightarrow> key \<in> set file_keys \<Longrightarrow> key \<noteq> ''source'' \<Longrightarrow>
   wf_job source (AList.update key v c)"
  by (auto simp: wf_job_def update_keys update_conv')

lemma parse_field_ok:
  assumes "wf_job source c"
  shows "\<exists>c'. parse_field line c = Inr c' \<and> wf_job source c'"
  using assms unfolding parse_field_def
  by (auto simp: set_field_ok wf_update file_keys_def)

text \<open>Stripping the newline does not change whether a line starts with \<open>Job #\<close>.\<close>

lemma rstrip_nl_prefix: "\<exists>t. l = rstrip_nl l @ t"
proof -
  have "rev l = takeWhile (\<lambda>c. c = CHR 0x0A) (rev l) @ dropWhile (\<lambda>c. c = CHR 0x0A) (rev l)"
    by simp
  then have "rev (rev l) =
      rev (takeWhile (\<lambda>c. c = CHR 0x0A) (rev l) @ dropWhile (\<lambda>c. c = CHR 0x0A) (rev l))"
    by simp
  then have "l = rstrip_nl l @ rev (takeWhile (\<lambda>c. c = CHR 0x0A) (rev l))"
    unfolding rstrip_nl_def by (simp only: rev_rev_ident rev_append)
  then show ?thesis ..
qed

lemma startswith_append: "startswith r p \<Longrightarrow> startswith (r @ t) p"
proof -
  assume a: "startswith r p"
  then have "length (take (length p) r) = length p" by (simp add: startswith_def)
  then have "length p \<le> length r" by simp
  with a show ?thesis by (simp add: startswith_def)
qed

lemma rstrip_nl_header: "rstrip_nl (''Job #'' @ rest) = ''Job #'' @ rstrip_nl rest"
  by (simp add: rstrip_nl_def dropWhile_append)

lemma header_rstrip: "startswith (rstrip_nl l) ''Job #'' = is_job_header l"
proof
  assume a: "startswith (rstrip_nl l) ''Job #''"
  obtain t where t: "l = rstrip_nl l @ t" using rstrip_nl_prefix by blast
  from a have "startswith (rstrip_nl l @ t) ''Job #''" by (rule startswith_append)
  with t show "is_job_header l" by (simp add: is_job_header_def)
next
  assume "is_job_header l"
  then have "take (length ''Job #'') l = ''Job #''"
    by (simp only: is_job_header_def startswith_def)
  then have "l = ''Job #'' @ drop (length ''Job #'') l" by (metis append_take_drop_id)
  then have "rstrip_nl l = ''Job #'' @ rstrip_nl (drop (length ''Job #'') l)"
    using rstrip_nl_header by metis
  then show "startswith (rstrip_nl l) ''Job #''" by (simp add: startswith_def)
qed

lemma parse_line_inv:
  assumes "parse_inv source st"
  shows "\<exists>st'. parse_line source l st = Inr st' \<and> parse_inv source st'
           \<and> emitted st' = emitted st + (if is_job_header l then 1 else 0)"
proof (cases st)
  case (Pair jobs current)
  show ?thesis
  proof (cases "is_job_header l")
    case True
    then show ?thesis using assms Pair
      by (auto simp: header_rstrip parse_inv_def emitted_def wf_new_job split: option.splits)
  next
    case False
    show ?thesis
    proof (cases current)
      case None
      then show ?thesis using assms Pair False
        by (simp add: header_rstrip parse_inv_def emitted_def)
    next
      case (Some c)
      then have "wf_job source c" using assms Pair by (simp add: parse_inv_def)
      then obtain c' where "parse_field (rstrip_nl l) c = Inr c'" "wf_job source c'"
        using parse_field_ok by blast
      then show ?thesis using assms Pair False Some
        by (simp add: header_rstrip parse_inv_def emitted_def)
    qed
  qed
qed

lemma parse_lines_inv:
  "parse_inv source st \<Longrightarrow>
   \<exists>st'. parse_lines source ls st = Inr st' \<and> parse_inv source st'
      \<and> emitted st' = emitted st + length (filter is_job_header ls)"
proof (induction ls arbitrary: st)
  case Nil
  then show ?case by simp
next
  case (Cons l ls)
  obtain st1 where 1: "parse_line source l st = Inr st1" "parse_inv source st1"
    "emitted st1 = emitted st + (if is_job_header l then 1 else 0)"
    using parse_line_inv [OF Cons.prems] by blast
  obtain st2 where 2: "parse_lines source ls st1 = Inr st2" "parse_inv source st2"
    "emitted st2 = emitted st1 + length (filter is_job_header ls)"
    using Cons.IH [OF 1(2)] by blast
  show ?case using 1 2 by simp
qed

lemma parse_lines_append:
  "parse_lines source (a @ b) st =
     (case parse_lines source a st of Inl e \<Rightarrow> Inl e | Inr st' \<Rightarrow> parse_lines source b st')"
  by (induction a arbitrary: st) (auto split: sum.splits)

lemma parse_lines_preamble:
  "\<forall>l\<in>set pre. \<not> is_job_header l \<Longrightarrow> parse_lines source pre ([], None) = Inr ([], None)"
  by (induction pre) (auto simp: header_rstrip)

text \<open>A record's lines never raise, and keep the keys of the dict literal.\<close>

lemma fields_ok:
  "wf_job source c \<Longrightarrow> \<exists>c'. read_fields b c = Inr c' \<and> wf_job source c'"
proof (induction b arbitrary: c)
  case Nil
  then show ?case by simp
next
  case (Cons l ls)
  obtain c1 where 1: "parse_field (rstrip_nl l) c = Inr c1" "wf_job source c1"
    using parse_field_ok [OF Cons.prems] by blast
  from Cons.IH [OF 1(2)] 1(1) show ?case by simp
qed

text \<open>A line changes no key but the one of the label it starts with.\<close>

lemma update_other: "k \<noteq> key \<Longrightarrow> map_of (AList.update key v c) k = map_of c k"
  by (simp add: update_conv')

lemma field_labels_mem:
  "(''title'', ''Title:'') \<in> set field_labels"
  "(''company'', ''Company:'') \<in> set field_labels"
  "(''experience'', ''Experience:'') \<in> set field_labels"
  "(''salary'', ''Salary:'') \<in> set field_labels"
  "(''job_function'', ''Job Function:'') \<in> set field_labels"
  "(''industry'', ''Industry:'') \<in> set field_labels"
  "(''specialization'', ''Specialization:'') \<in> set field_labels"
  "(''graduate_courses'', ''Graduate Courses:'') \<in> set field_labels"
  "(''post_graduate_courses'', ''Post Graduate Courses:'') \<in> set field_labels"
  "(''employment_type'', ''Employment Type:'') \<in> set field_labels"
  "(''job_type'', ''Job Type:'') \<in> set field_labels"
  "(''gender'', ''Gender:'') \<in> set field_labels"
  "(''url'', ''URL:'') \<in> set field_labels"
  "(''description'', ''Description:'') \<in> set field_labels"
  "(''skills'', ''Skills:'') \<in> set field_labels"
  by (simp_all add: field_labels_def)

lemma set_field_sets:
  "(key, label) \<in> set field_labels \<Longrightarrow> startswith line label \<Longrightarrow> label \<noteq> [] \<Longrightarrow>
   set_field key label line c = Inr c' \<Longrightarrow> sets_field line c c'"
  unfolding sets_field_def by (auto simp: set_field_ok)

lemma parse_field_cases:
  assumes "parse_field line c = Inr c'"
  shows "c' = c \<or> sets_field line c c'"
  using assms unfolding parse_field_def
  by (auto split: if_splits intro: set_field_sets [OF field_labels_mem(1)]
      set_field_sets [OF field_labels_mem(2)] set_field_sets [OF field_labels_mem(3)]
      set_field_sets [OF field_labels_mem(4)] set_field_sets [OF field_labels_mem(5)]
      set_field_sets [OF field_labels_mem(6)] set_field_sets [OF field_labels_mem(7)]
      set_field_sets [OF field_labels_mem(8)] set_field_sets [OF field_labels_mem(9)]
      set_field_sets [OF field_labels_mem(10)] set_field_sets [OF field_labels_mem(11)]
      set_field_sets [OF field_labels_mem(12)] set_field_sets [OF field_labels_mem(13)]
      set_field_sets [OF field_labels_mem(14)] set_field_sets [OF field_labels_mem(15)])

lemma field_labels_distinct: "distinct (map fst field_labels)"
  by (simp add: field_labels_def)

lemma parse_field_frame:
  assumes "parse_field line c = Inr c'" and "(k, lab) \<in> set field_labels"
    and "\<not> startswith line lab"
  shows "map_of c' k = map_of c k"
proof -
  from parse_field_cases [OF assms(1)] show ?thesis
  proof
    assume "c' = c"
    then show ?thesis by simp
  next
    assume "sets_field line c c'"
    then obtain key label where kl: "(key, label) \<in> set field_labels"
      "startswith line label" "c' = AList.update key (strip (drop (length label) line)) c"
      unfolding sets_field_def by blast
    have "k \<noteq> key"
    proof
      assume "k = key"
      with kl(1) have "map_of field_labels k = Some label"
        using field_labels_distinct by (simp add: map_of_is_SomeI)
      moreover from assms(2) have "map_of field_labels k = Some lab"
        using field_labels_distinct by (simp add: map_of_is_SomeI)
      ultimately have "lab = label" by simp
      with kl(2) assms(3) show False by simp
    qed
    with kl(3) show ?thesis by (simp add: update_other)
  qed
qed

lemma fields_frame:
  "read_fields b c = Inr c' \<Longrightarrow> (k, lab) \<in> set field_labels \<Longrightarrow>
   \<forall>l\<in>set b. \<not> startswith (rstrip_nl l) lab \<Longrightarrow> map_of c' k = map_of c k"
proof (induction b arbitrary: c)
  case Nil
  then show ?case by simp
next
  case (Cons l ls)
  from Cons.prems(1) obtain c1 where 1: "parse_field (rstrip_nl l) c = Inr c1"
    "read_fields ls c1 = Inr c'" by (auto split: sum.splits)
  from Cons.prems(3) have 2: "\<not> startswith (rstrip_nl l) lab"
    "\<forall>l\<in>set ls. \<not> startswith (rstrip_nl l) lab" by simp_all
  from Cons.IH [OF 1(2) Cons.prems(2) 2(2)] parse_field_frame [OF 1(1) Cons.prems(2) 2(1)]
  show ?case by simp
qed

lemma new_job_empty: "(k, lab) \<in> set field_labels \<Longrightarrow> map_of (new_job source) k = Some []"
  by (auto simp: field_labels_def new_job_def)

text \<open>
  The loop from a state with a record in progress: that record takes the lines up to
  the next \<open>Job #\<close> line, and every later record starts from the dict literal.
\<close>

lemma parse_lines_current:
  "wf_job source c \<Longrightarrow>
   \<exists>st'. parse_lines source ls (jobs, Some c) = Inr st'
     \<and> map Inr (finish st') =
         map Inr jobs @ read_fields (takeWhile (\<lambda>x. \<not> is_job_header x) ls) c
           # map (\<lambda>b. read_fields b (new_job source)) (record_lines ls)"
proof (induction ls arbitrary: jobs c)
  case Nil
  then have "c \<noteq> []" by auto
  then show ?case by (simp add: finish_def)
next
  case (Cons l ls)
  show ?case
  proof (cases "is_job_header l")
    case True
    from Cons.prems have ne: "c \<noteq> []" by auto
    obtain st' where st: "parse_lines source ls (jobs @ [c], Some (new_job source)) = Inr st'"
      "map Inr (finish st') =
         map Inr (jobs @ [c]) @ read_fields (takeWhile (\<lambda>x. \<not> is_job_header x) ls) (new_job source)
           # map (\<lambda>b. read_fields b (new_job source)) (record_lines ls)"
      using Cons.IH [OF wf_new_job] by blast
    from True ne st show ?thesis by (simp add: header_rstrip)
  next
    case False
    obtain c1 where 1: "parse_field (rstrip_nl l) c = Inr c1" "wf_job source c1"
      using parse_field_ok [OF Cons.prems] by blast
    obtain st' where st: "parse_lines source ls (jobs, Some c1) = Inr st'"
      "map Inr (finish st') =
         map Inr jobs @ read_fields (takeWhile (\<lambda>x. \<not> is_job_header x) ls) c1
           # map (\<lambda>b. read_fields b (new_job source)) (record_lines ls)"
      using Cons.IH [OF 1(2)] by blast
    from False 1 st show ?thesis by (simp add: header_rstrip)
  qed
qed

lemma parse_lines_records:
  "\<exists>st'. parse_lines source ls ([], None) = Inr st'
     \<and> map Inr (finish st') = map (\<lambda>b. read_fields b (new_job source)) (record_lines ls)"
proof (induction ls)
  case Nil
  then show ?case by (simp add: finish_def)
next
  case (Cons l ls)
  show ?case
  proof (cases "is_job_header l")
    case True
    from parse_lines_current [OF wf_new_job, of source ls "[]"] True show ?thesis
      by (simp add: header_rstrip)
  next
    case False
    with Cons.IH show ?thesis by (simp add: header_rstrip)
  qed
qed

lemma parse_jobs_file_finish:
  "parse_lines source raw_lines ([], None) = Inr st \<Longrightarrow>
   parse_jobs_file (Some raw_lines) source = Inr (finish st)"
  by (cases st) (simp add: parse_jobs_file_def finish_def split: option.splits)

text \<open>
  C10. For every file, \<open>parse_jobs_file\<close> returns a list with exactly one record per
  line that begins with \<open>Job #\<close>, the record in progress at the end of the file
  included. The record of a \<open>Job #\<close> line is the dict literal (every field empty, plus
  the caller's source tag) changed by the lines between that \<open>Job #\<close> line and the
  next one, and by no other line: a field whose label starts none of these lines is
  empty. Every record has all the keys of the schema and carries the source tag, and
  lines before the first \<open>Job #\<close> line change nothing.
\<close>

theorem parse_jobs_file_records:
  "\<exists>js. parse_jobs_file (Some raw_lines) source = Inr js
     \<and> length js = length (filter is_job_header raw_lines)
     \<and> list_all2
         (\<lambda>r b. read_fields b (new_job source) = Inr r
            \<and> (\<forall>(k, lab)\<in>set field_labels.
                 (\<forall>l\<in>set b. \<not> startswith (rstrip_nl l) lab) \<longrightarrow> map_of r k = Some []))
         js (record_lines raw_lines)
     \<and> (\<forall>r\<in>set js. map fst r = file_keys \<and> map_of r ''source'' = Some source)
     \<and> (\<forall>pre. (\<forall>l\<in>set pre. \<not> is_job_header l) \<longrightarrow>
           parse_jobs_file (Some (pre @ raw_lines)) source = Inr js)
     \<and> (\<forall>h. is_job_header h \<longrightarrow> parse_jobs_file (Some [h]) source = Inr [new_job source])"
proof -
  have i0: "parse_inv source ([], None)" by (simp add: parse_inv_def)
  obtain st where st: "parse_lines source raw_lines ([], None) = Inr st" "parse_inv source st"
    "emitted st = emitted ([], None) + length (filter is_job_header raw_lines)"
    using parse_lines_inv [OF i0] by blast
  obtain jobs current where jc: "st = (jobs, current)" by (cases st)
  define js where "js = finish st"
  have r: "parse_jobs_file (Some raw_lines) source = Inr js"
    using parse_jobs_file_finish [OF st(1)] by (simp add: js_def)
  have len: "length js = length (filter is_job_header raw_lines)"
    using st(2,3) jc
    by (auto simp: js_def finish_def emitted_def parse_inv_def split: option.splits)
  have wf: "\<forall>r\<in>set js. map fst r = file_keys \<and> map_of r ''source'' = Some source"
    using st(2) jc
    by (auto simp: js_def finish_def parse_inv_def wf_job_def split: option.splits if_splits)
  have m: "map Inr js = map (\<lambda>b. read_fields b (new_job source)) (record_lines raw_lines)"
    using parse_lines_records [of source raw_lines] st(1) by (simp add: js_def)
  then have "list_all2 (=) (map Inr js)
      (map (\<lambda>b. read_fields b (new_job source)) (record_lines raw_lines))"
    by (simp add: list.rel_eq)
  then have "list_all2 (\<lambda>r b. Inr r = read_fields b (new_job source)) js (record_lines raw_lines)"
    by (simp add: list.rel_map)
  then have rec: "list_all2
         (\<lambda>r b. read_fields b (new_job source) = Inr r
            \<and> (\<forall>(k, lab)\<in>set field_labels.
                 (\<forall>l\<in>set b. \<not> startswith (rstrip_nl l) lab) \<longrightarrow> map_of r k = Some []))
         js (record_lines raw_lines)"
  proof (rule list_all2_mono)
    fix r b
    assume e: "Inr r = read_fields b (new_job source)"
    have "map_of r k = Some []"
      if "(k, lab) \<in> set field_labels" "\<forall>l\<in>set b. \<not> startswith (rstrip_nl l) lab" for k lab
      using fields_frame [OF e [symmetric] that] new_job_empty [OF that(1)] by simp
    with e show "read_fields b (new_job source) = Inr r
            \<and> (\<forall>(k, lab)\<in>set field_labels.
                 (\<forall>l\<in>set b. \<not> startswith (rstrip_nl l) lab) \<longrightarrow> map_of r k = Some [])"
      by auto
  qed
  have pre: "\<forall>pre. (\<forall>l\<in>set pre. \<not> is_job_header l) \<longrightarrow>
           parse_jobs_file (Some (pre @ raw_lines)) source = Inr js"
    using r by (simp add: parse_jobs_file_def parse_lines_append parse_lines_preamble)
  have one: "\<forall>h. is_job_header h \<longrightarrow> parse_jobs_file (Some [h]) source = Inr [new_job source]"
    by (simp add: parse_jobs_file_def header_rstrip new_job_def)
  show ?thesis using r len rec wf pre one by blast
qed

text \<open>
  A file with a stray line, a record with a title, and a record without lines: the
  second record does not inherit the title of the first.
\<close>

theorem parse_jobs_file_records_witness:
  "parse_jobs_file (Some [''Title: stray'', ''Job #1'', ''Title: Dev '', ''Job #2'']) ''TimesJobs''
     = Inr [AList.update ''title'' ''Dev'' (new_job ''TimesJobs''), new_job ''TimesJobs'']
   \<and> map_of (new_job ''TimesJobs'') ''title'' = Some []
   \<and> parse_jobs_file (Some [''Job #1'']) ''TimesJobs'' = Inr [new_job ''TimesJobs'']"
proof -
  let ?ls = "[''Title: stray'', ''Job #1'', ''Title: Dev '', ''Job #2'']"
  have b: "record_lines ?ls = [[''Title: Dev ''], []]" by code_simp
  have f: "read_fields [''Title: Dev ''] (new_job ''TimesJobs'')
      = Inr (AList.update ''title'' ''Dev'' (new_job ''TimesJobs''))" by code_simp
  have t: "map_of (new_job ''TimesJobs'') ''title'' = Some []" by code_simp
  have h: "is_job_header ''Job #1''" by code_simp
  from parse_jobs_file_records [of ?ls "''TimesJobs''"]
  obtain js where js:
    "parse_jobs_file (Some ?ls) ''TimesJobs'' = Inr js"
    "list_all2
         (\<lambda>r b. read_fields b (new_job ''TimesJobs'') = Inr r
            \<and> (\<forall>(k, lab)\<in>set field_labels.
                 (\<forall>l\<in>set b. \<not> startswith (rstrip_nl l) lab) \<longrightarrow> map_of r k = Some []))
         js (record_lines ?ls)"
    "\<forall>h. is_job_header h \<longrightarrow>
       parse_jobs_file (Some [h]) ''TimesJobs'' = Inr [new_job ''TimesJobs'']"
    by blast
  from js(2) obtain r1 r2 where r: "js = [r1, r2]"
    "read_fields [''Title: Dev ''] (new_job ''TimesJobs'') = Inr r1"
    "read_fields [] (new_job ''TimesJobs'') = Inr r2"
    unfolding b by (auto simp: list_all2_Cons2 simp del: read_fields.simps)
  from r f have
    "js = [AList.update ''title'' ''Dev'' (new_job ''TimesJobs''), new_job ''TimesJobs'']"
    by simp
  with js(1) js(3) h t show ?thesis by blast
qed

section \<open>The two crawls\<close>

subsection \<open>Actions of a run\<close>

lemma listing_pages_append [simp]: "listing_pages (a @ b) = listing_pages a @ listing_pages b"
  by (induction a rule: listing_pages.induct) auto

lemma detail_visits_append [simp]: "detail_visits (a @ b) = detail_visits a @ detail_visits b"
  by (induction a rule: detail_visits.induct) auto

lemma count_quit_append [simp]: "count_list (a @ b) Quit = count_list a Quit + count_list b Quit"
  by (induction a) auto

lemma collect_links_events:
  "collect_links w ps = (jobs, evs) \<Longrightarrow>
   count_list evs Quit = 0 \<and> detail_visits evs = [] \<and> set (listing_pages evs) \<subseteq> set ps"
proof (induction ps arbitrary: jobs evs)
  case Nil
  then show ?case by simp
next
  case (Cons p ps)
  obtain jobs' evs' where r: "collect_links w ps = (jobs', evs')" by (cases "collect_links w ps")
  from Cons.IH [OF r] Cons.prems r show ?case
    by (auto split: sum.splits if_splits)
qed

lemma collect_links_full:
  "\<forall>p\<in>set ps. \<forall>s. listing w p = Inr s \<longrightarrow> \<not> check_for_no_results s \<Longrightarrow>
   listing_pages (snd (collect_links w ps)) = ps"
  by (induction ps) (auto split: sum.splits prod.splits)

lemma detail_pass_events:
  "detail_pass w idx stubs = (jobs, evs) \<Longrightarrow>
   count_list evs Quit = 0 \<and> listing_pages evs = [] \<and> detail_visits evs = map url stubs"
proof (induction stubs arbitrary: idx jobs evs)
  case Nil
  then show ?case by simp
next
  case (Cons jb rest)
  obtain jobs' evs' where r: "detail_pass w (Suc idx) rest = (jobs', evs')"
    by (cases "detail_pass w (Suc idx) rest")
  from Cons.IH [OF r] Cons.prems r show ?case
    by (auto split: sum.splits)
qed

lemma talent_detail_pass_events:
  "talent_detail_pass tw idx stubs = (jobs, evs) \<Longrightarrow>
   count_list evs Quit = 0 \<and> listing_pages evs = [] \<and> detail_visits evs = map url stubs"
proof (induction stubs arbitrary: idx jobs evs)
  case Nil
  then show ?case by simp
next
  case (Cons jb rest)
  obtain jobs' evs' where r: "talent_detail_pass tw (Suc idx) rest = (jobs', evs')"
    by (cases "talent_detail_pass tw (Suc idx) rest")
  from Cons.IH [OF r] Cons.prems r show ?case
    by (auto split: sum.splits)
qed

text \<open>The run once the driver exists and the first page is a real result page.\<close>

lemma scrape_all_jobs_walk:
  assumes "get_driver w = None" "first_page w = Inr sp" "\<not> check_for_no_results sp"
    "collect_links w [1..limit_pages max_pages (get_total_pages sp)] = (all_jobs, evs)"
    "detail_pass w 1 all_jobs = (jobs_data, evs')"
  shows "scrape_all_jobs w max_pages =
     (if all_jobs = [] then (Inr [], GetListing 1 # evs @ [Quit])
      else (Inr jobs_data, GetListing 1 # evs @ evs' @ [Quit]))"
  using assms by (simp add: scrape_all_jobs_def)

lemma job_data_keys: "job_data ds jb = Inr jd \<Longrightarrow> map fst jd = schema_keys"
  by (auto simp: job_data_def schema_keys_def Let_def split: sum.splits)

lemma detail_pass_keys:
  "detail_pass w idx stubs = (jobs, evs) \<Longrightarrow> \<forall>r\<in>set jobs. map fst r = schema_keys"
proof (induction stubs arbitrary: idx jobs evs)
  case Nil
  then show ?case by simp
next
  case (Cons jb rest)
  obtain jobs' evs' where r: "detail_pass w (Suc idx) rest = (jobs', evs')"
    by (cases "detail_pass w (Suc idx) rest")
  from Cons.IH [OF r] Cons.prems r show ?case
    by (auto split: sum.splits dest: job_data_keys)
qed

lemma talent_detail_pass_keys:
  "talent_detail_pass tw idx stubs = (jobs, evs) \<Longrightarrow>
   \<forall>r\<in>set jobs. map fst r = schema_keys"
proof (induction stubs arbitrary: idx jobs evs)
  case Nil
  then show ?case by simp
next
  case (Cons jb rest)
  obtain jobs' evs' where r: "talent_detail_pass tw (Suc idx) rest = (jobs', evs')"
    by (cases "talent_detail_pass tw (Suc idx) rest")
  have k: "map fst (talent_job_data ds jb) = schema_keys" for ds
    by (simp add: talent_job_data_def schema_keys_def)
  from Cons.IH [OF r] Cons.prems r k show ?case
    by (auto split: sum.splits)
qed

lemma scrape_all_jobs_cases:
  "scrape_all_jobs w max_pages = (res, evs) \<Longrightarrow>
   (\<exists>e. get_driver w = Some e \<and> res = Inl e \<and> evs = [])
   \<or> (get_driver w = None \<and> (\<exists>js evs1.
         res = Inr js \<and> evs = GetListing 1 # evs1 @ [Quit] \<and> count_list evs1 Quit = 0
         \<and> (\<forall>r\<in>set js. map fst r = schema_keys)
         \<and> set (listing_pages evs1) \<subseteq> (case first_page w of Inl e \<Rightarrow> {} | Inr sp \<Rightarrow>
               if check_for_no_results sp then {}
               else {1..limit_pages max_pages (get_total_pages sp)})))"
proof (cases "get_driver w")
  case (Some e)
  assume "scrape_all_jobs w max_pages = (res, evs)"
  with Some show ?thesis by (simp add: scrape_all_jobs_def)
next
  case None
  assume a: "scrape_all_jobs w max_pages = (res, evs)"
  show ?thesis
  proof (cases "first_page w")
    case (Inl e)
    with None a show ?thesis by (auto simp: scrape_all_jobs_def)
  next
    case (Inr sp)
    show ?thesis
    proof (cases "check_for_no_results sp")
      case True
      with None Inr a show ?thesis by (auto simp: scrape_all_jobs_def)
    next
      case False
      obtain all_jobs evs1 where c:
        "collect_links w [1..limit_pages max_pages (get_total_pages sp)] = (all_jobs, evs1)"
        by (cases "collect_links w [1..limit_pages max_pages (get_total_pages sp)]")
      obtain jobs_data evs2 where d: "detail_pass w 1 all_jobs = (jobs_data, evs2)"
        by (cases "detail_pass w 1 all_jobs")
      note ce = collect_links_events [OF c]
      note de = detail_pass_events [OF d]
      have k: "\<forall>r\<in>set jobs_data. map fst r = schema_keys"
        using detail_pass_keys [OF d] .
      from scrape_all_jobs_walk [OF None Inr False c d] a
      have "(res, evs) = (if all_jobs = [] then (Inr [], GetListing 1 # evs1 @ [Quit])
          else (Inr jobs_data, GetListing 1 # evs1 @ evs2 @ [Quit]))" by simp
      then show ?thesis
      proof (cases "all_jobs = []")
        case True
        with \<open>(res, evs) = _\<close> None Inr False ce show ?thesis by auto
      next
        case False2: False
        with \<open>(res, evs) = _\<close> have "res = Inr jobs_data" "evs = GetListing 1 # (evs1 @ evs2) @ [Quit]"
          by auto
        with None Inr False ce de k show ?thesis by auto
      qed
    qed
  qed
qed

lemma scrape_talent_com_cases:
  "scrape_talent_com tw page = (res, evs) \<Longrightarrow>
   (\<exists>e. talent_get_driver tw = Some e \<and> res = Inl e \<and> evs = [])
   \<or> (talent_get_driver tw = None \<and> (\<exists>js evs1.
         res = Inr js \<and> evs = GetListing page # evs1 @ [Quit] \<and> count_list evs1 Quit = 0
         \<and> (\<forall>r\<in>set js. map fst r = schema_keys)
         \<and> ((\<exists>e. talent_listing tw = Inl e) \<longrightarrow> js = [])))"
proof (cases "talent_get_driver tw")
  case (Some e)
  assume "scrape_talent_com tw page = (res, evs)"
  with Some show ?thesis by (simp add: scrape_talent_com_def)
next
  case None
  assume a: "scrape_talent_com tw page = (res, evs)"
  show ?thesis
  proof (cases "talent_listing tw")
    case (Inl e)
    with None a show ?thesis by (auto simp: scrape_talent_com_def)
  next
    case (Inr sp)
    obtain jobs_data evs1 where
      d: "talent_detail_pass tw 1 (cards_loop (job_cards sp)) = (jobs_data, evs1)"
      by (cases "talent_detail_pass tw 1 (cards_loop (job_cards sp))")
    note de = talent_detail_pass_events [OF d]
    note k = talent_detail_pass_keys [OF d]
    from None Inr d a have "res = Inr jobs_data" "evs = GetListing page # evs1 @ [Quit]"
      by (auto simp: scrape_talent_com_def)
    with None Inr de k show ?thesis by auto
  qed
qed

lemma max_page_loop_ge: "max_page_loop buttons max_page = Inr n \<Longrightarrow> max_page \<le> n"
proof (induction buttons arbitrary: max_page)
  case Nil
  then show ?case by simp
next
  case (Cons b bs)
  from Cons.prems have
    "max_page_loop bs max_page = Inr n
     \<or> (\<exists>page_num. max_page_loop bs (max max_page page_num) = Inr n)"
    by (auto simp: Let_def split: if_splits sum.splits)
  then show ?case
  proof
    assume "max_page_loop bs max_page = Inr n"
    then show ?thesis by (rule Cons.IH)
  next
    assume "\<exists>page_num. max_page_loop bs (max max_page page_num) = Inr n"
    then obtain page_num where "max_page_loop bs (max max_page page_num) = Inr n" ..
    then have "max max_page page_num \<le> n" by (rule Cons.IH)
    then show ?thesis by simp
  qed
qed

lemma get_total_pages_ge: "1 \<le> get_total_pages sp"
  by (auto simp: get_total_pages_def split: sum.splits dest: max_page_loop_ge)

lemma max_page_loop_no_digits:
  "\<forall>b\<in>set buttons. \<not> isdigit (get_text [] True b) \<Longrightarrow>
   max_page_loop buttons max_page = Inr max_page"
  by (induction buttons arbitrary: max_page) auto

lemma limit_pages_le: "0 < k \<Longrightarrow> limit_pages (Some k) n \<le> k"
  by (simp add: limit_pages_def)

lemma limit_pages_total: "n \<le> k \<Longrightarrow> limit_pages (Some k) n = n"
  by (simp add: limit_pages_def)

lemma limit_pages_zero: "limit_pages (Some 0) n = limit_pages None n"
  by (simp add: limit_pages_def)

text \<open>The pages of a walk over which no page stops the loop.\<close>

lemma scrape_all_jobs_full_walk:
  assumes "get_driver w = None" "first_page w = Inr sp" "\<not> check_for_no_results sp"
    "\<forall>p\<in>{1..limit_pages max_pages (get_total_pages sp)}.
       \<forall>s. listing w p = Inr s \<longrightarrow> \<not> check_for_no_results s"
  shows "listing_pages (snd (scrape_all_jobs w max_pages)) =
     1 # [1..limit_pages max_pages (get_total_pages sp)]"
proof -
  let ?n = "limit_pages max_pages (get_total_pages sp)"
  obtain all_jobs evs where c: "collect_links w [1..?n] = (all_jobs, evs)"
    by (cases "collect_links w [1..?n]")
  obtain jobs_data evs' where d: "detail_pass w 1 all_jobs = (jobs_data, evs')"
    by (cases "detail_pass w 1 all_jobs")
  have "listing_pages (snd (collect_links w [1..?n])) = [1..?n]"
    using assms(4) by (intro collect_links_full) simp
  with c have l: "listing_pages evs = [1..?n]" by simp
  from detail_pass_events [OF d] have l': "listing_pages evs' = []" by simp
  show ?thesis
    using scrape_all_jobs_walk [OF assms(1-3) c d] l l' by (cases "all_jobs = []") simp_all
qed

subsection \<open>Links kept by a listing page\<close>

lemma links_loop_firsts:
  "links_loop b ls seen jobs = jobs @ map (stub_of b) (filter has_title (firsts seen ls))"
  by (induction ls arbitrary: seen jobs)
     (auto simp: Let_def is_job_link_def href_of_def has_title_def stub_of_def)




lemma extract_jobs_from_page_firsts:
  "extract_jobs_from_page sp b = map (stub_of b) (filter has_title (firsts {} (all_links sp)))"
  by (simp add: extract_jobs_from_page_def links_loop_firsts)

lemma extract_jobs_titled:
  "j \<in> set (extract_jobs_from_page sp b) \<Longrightarrow> title j \<noteq> [] \<and> title j \<noteq> ''N/A''"
  by (auto simp: extract_jobs_from_page_firsts stub_of_def has_title_def)

lemma collect_links_titled:
  "j \<in> set (fst (collect_links w ps)) \<Longrightarrow> title j \<noteq> [] \<and> title j \<noteq> ''N/A''"
proof (induction ps)
  case Nil
  then show ?case by simp
next
  case (Cons p ps)
  then show ?case
    by (auto split: sum.splits prod.splits if_splits dest: extract_jobs_titled)
qed



subsection \<open>Properties of the crawls\<close>

text \<open>
  C1, for TimesJobs. When the browser starts and the text of the first result page
  contains ``no jobs matching'' or ``no results found'' (in any letter case),
  \<open>scrape_all_jobs\<close> returns the empty list, loads no detail page, and does nothing but
  load page 1 and quit the browser.
\<close>

theorem no_results_short_circuit:
  assumes "get_driver w = None" and "first_page w = Inr sp"
    and "contains ''no jobs matching'' (lower (soup_get_text sp))
         \<or> contains ''no results found'' (lower (soup_get_text sp))"
  shows "fst (scrape_all_jobs w max_pages) = Inr []
     \<and> detail_visits (snd (scrape_all_jobs w max_pages)) = []
     \<and> snd (scrape_all_jobs w max_pages) = [GetListing 1, Quit]"
proof -
  from assms(3) have "check_for_no_results sp" by (simp add: check_for_no_results_def Let_def)
  with assms(1,2) show ?thesis by (simp add: scrape_all_jobs_def)
qed

text \<open>
  An empty search whose page still shows a suggested job: nothing is scraped.
\<close>

theorem no_results_short_circuit_witness:
  "contains ''no jobs matching'' (lower (soup_get_text ex_no_results))
   \<and> extract_jobs_from_page ex_no_results base_url \<noteq> []
   \<and> scrape_all_jobs ex_world_empty None = (Inr [], [GetListing 1, Quit])
   \<and> detail_visits (snd (scrape_all_jobs ex_world_empty None)) = []"
proof -
  have a: "get_driver ex_world_empty = None" by (simp add: ex_world_empty_def)
  have b: "first_page ex_world_empty = Inr ex_no_results" by (simp add: ex_world_empty_def)
  have c: "contains ''no jobs matching'' (lower (soup_get_text ex_no_results))" by code_simp
  have d: "extract_jobs_from_page ex_no_results base_url \<noteq> []" by code_simp
  from c have c': "contains ''no jobs matching'' (lower (soup_get_text ex_no_results))
      \<or> contains ''no results found'' (lower (soup_get_text ex_no_results))" ..
  from no_results_short_circuit [OF a b c', of None] c d show ?thesis
    by (simp add: prod_eq_iff)
qed

text \<open>
  \<open>scrape_talent_com\<close> has no such test: on a listing with the text ``No results
  found'' above a card it loads the card's detail page and returns its record.
\<close>

theorem talent_no_results_not_checked:
  "contains ''no results found'' (lower (soup_get_text ex_talent_listing))
   \<and> fst (scrape_talent_com ex_talent_world 1) \<noteq> Inr []
   \<and> detail_visits (snd (scrape_talent_com ex_talent_world 1)) = [''https://in.talent.com/view?id=41'']"
  by code_simp




text \<open>
  C3. \<open>extract_experience_from_detail\<close> raises \<open>IndexError\<close> on a detail page with
  fewer than two meta spans, where \<open>extract_salary_from_detail\<close> gives its sentinel; in
  a run, the job collected from the listing is then left out of the result.
\<close>

theorem experience_raises_on_missing_spans:
  "extract_experience_from_detail [ex_span ''Ahmedabad''] = Inl IndexError
   \<and> extract_salary_from_detail [ex_span ''Ahmedabad''] = ''N/A''
   \<and> extract_experience_from_detail [] = Inl IndexError
   \<and> fst (collect_links ex_world_short_detail [1]) \<noteq> []
   \<and> fst (scrape_all_jobs ex_world_short_detail (Some 1)) = Inr []"
  by code_simp

text \<open>
  C4, counting the different page numbers loaded, and with the walk's stop at a
  no-results page. With a cap \<open>k > 0\<close>, \<open>scrape_all_jobs\<close> loads at most \<open>k\<close> different
  listing pages. When moreover the browser starts, \<open>k\<close> is at least the detected total
  and neither the first page nor a page of the walk that loads shows the no-results
  text, the pages loaded are exactly \<open>1\<close> to the detected total. A page without a
  button whose text is a number has the detected total 1.
\<close>

theorem page_cap:
  assumes "0 < k"
  shows "card (set (listing_pages (snd (scrape_all_jobs w (Some k))))) \<le> nat k
     \<and> (\<forall>sp. get_driver w = None \<and> first_page w = Inr sp \<and> \<not> check_for_no_results sp
            \<and> get_total_pages sp \<le> k
            \<and> (\<forall>p\<in>{1..get_total_pages sp}. \<forall>s. listing w p = Inr s \<longrightarrow> \<not> check_for_no_results s)
          \<longrightarrow> set (listing_pages (snd (scrape_all_jobs w (Some k)))) = {1..get_total_pages sp}
            \<and> card (set (listing_pages (snd (scrape_all_jobs w (Some k)))))
                = nat (get_total_pages sp))
     \<and> (\<forall>sp. (\<forall>b\<in>set (find_all_tags [''button''] (\<lambda>n. True) sp). \<not> isdigit (get_text [] True b))
          \<longrightarrow> get_total_pages sp = 1)"
proof -
  obtain res evs where r: "scrape_all_jobs w (Some k) = (res, evs)"
    by (cases "scrape_all_jobs w (Some k)")
  have sub: "set (listing_pages evs) \<subseteq> {1..k}"
  proof -
    from scrape_all_jobs_cases [OF r] show ?thesis
    proof
      assume "\<exists>e. get_driver w = Some e \<and> res = Inl e \<and> evs = []"
      then show ?thesis by auto
    next
      assume "get_driver w = None \<and> (\<exists>js evs1.
         res = Inr js \<and> evs = GetListing 1 # evs1 @ [Quit] \<and> count_list evs1 Quit = 0
         \<and> (\<forall>r\<in>set js. map fst r = schema_keys)
         \<and> set (listing_pages evs1) \<subseteq> (case first_page w of Inl e \<Rightarrow> {} | Inr sp \<Rightarrow>
               if check_for_no_results sp then {}
               else {1..limit_pages (Some k) (get_total_pages sp)}))"
      then obtain evs1 where e: "evs = GetListing 1 # evs1 @ [Quit]"
        and s: "set (listing_pages evs1) \<subseteq> (case first_page w of Inl e \<Rightarrow> {} | Inr sp \<Rightarrow>
               if check_for_no_results sp then {}
               else {1..limit_pages (Some k) (get_total_pages sp)})" by blast
      have "set (listing_pages evs1) \<subseteq> {1..k}"
      proof (cases "first_page w")
        case (Inl e)
        with s show ?thesis by simp
      next
        case (Inr sp)
        with s limit_pages_le [OF assms, of "get_total_pages sp"] show ?thesis
          by (auto split: if_splits)
      qed
      with e assms show ?thesis by auto
    qed
  qed
  have "card (set (listing_pages evs)) \<le> card {1..k}"
    by (rule card_mono) (use sub in simp_all)
  then have c1: "card (set (listing_pages (snd (scrape_all_jobs w (Some k))))) \<le> nat k"
    using r by simp
  have c2: "set (listing_pages (snd (scrape_all_jobs w (Some k)))) = {1..get_total_pages sp}
            \<and> card (set (listing_pages (snd (scrape_all_jobs w (Some k)))))
                = nat (get_total_pages sp)"
    if h: "get_driver w = None \<and> first_page w = Inr sp \<and> \<not> check_for_no_results sp
            \<and> get_total_pages sp \<le> k
            \<and> (\<forall>p\<in>{1..get_total_pages sp}. \<forall>s. listing w p = Inr s \<longrightarrow> \<not> check_for_no_results s)"
    for sp
  proof -
    from h have lim: "limit_pages (Some k) (get_total_pages sp) = get_total_pages sp"
      by (simp add: limit_pages_total)
    have "listing_pages (snd (scrape_all_jobs w (Some k))) = 1 # [1..get_total_pages sp]"
      using scrape_all_jobs_full_walk [of w sp "Some k"] h lim by simp
    then have "set (listing_pages (snd (scrape_all_jobs w (Some k)))) = {1..get_total_pages sp}"
      using get_total_pages_ge [of sp] by auto
    then show ?thesis by simp
  qed
  have c3: "get_total_pages sp = 1"
    if "\<forall>b\<in>set (find_all_tags [''button''] (\<lambda>n. True) sp). \<not> isdigit (get_text [] True b)" for sp
    using that by (simp add: get_total_pages_def max_page_loop_no_digits)
  show ?thesis using c1 c2 c3 by blast
qed

text \<open>
  A site of four result pages under a cap of 5, and a page without buttons.
\<close>

theorem page_cap_witness:
  "card (set (listing_pages (snd (scrape_all_jobs ex_world_full (Some 5))))) \<le> 5
   \<and> get_total_pages ex_listing = 4
   \<and> set (listing_pages (snd (scrape_all_jobs ex_world_full (Some 5)))) = {1..4}
   \<and> card (set (listing_pages (snd (scrape_all_jobs ex_world_full (Some 5))))) = 4
   \<and> get_total_pages ex_no_results = 1"
proof -
  have t: "get_total_pages ex_listing = 4" by code_simp
  have n: "\<not> check_for_no_results ex_listing" by code_simp
  have h: "get_driver ex_world_full = None \<and> first_page ex_world_full = Inr ex_listing
      \<and> \<not> check_for_no_results ex_listing \<and> get_total_pages ex_listing \<le> 5
      \<and> (\<forall>p\<in>{1..get_total_pages ex_listing}. \<forall>s. listing ex_world_full p = Inr s
            \<longrightarrow> \<not> check_for_no_results s)"
    using t n by (simp add: ex_world_full_def)
  have b: "find_all_tags [''button''] (\<lambda>n. True) ex_no_results = []" by code_simp
  have b': "\<forall>b\<in>set (find_all_tags [''button''] (\<lambda>n. True) ex_no_results).
      \<not> isdigit (get_text [] True b)" unfolding b by simp
  have pc: "(0::int) < 5" by simp
  note p = page_cap [OF pc, of ex_world_full]
  from p have 1: "card (set (listing_pages (snd (scrape_all_jobs ex_world_full (Some 5))))) \<le> 5"
    by simp
  from p h have 2: "set (listing_pages (snd (scrape_all_jobs ex_world_full (Some 5))))
       = {1..get_total_pages ex_listing}
     \<and> card (set (listing_pages (snd (scrape_all_jobs ex_world_full (Some 5)))))
       = nat (get_total_pages ex_listing)" by blast
  from p b' have 3: "get_total_pages ex_no_results = 1" by blast
  from 1 2 3 t show ?thesis by simp
qed

text \<open>
  A cap of 5 over a detected total of 4, where page 2 shows the no-results text: the
  loads are page 1 (twice) and page 2.
\<close>

theorem page_cap_stops_early:
  "get_total_pages ex_listing = 4
   \<and> listing_pages (snd (scrape_all_jobs ex_world (Some 5))) = [1, 1, 2]"
  by code_simp

text \<open>
  C5, for TimesJobs. No stub of a listing page, and no stub collected by a walk, has
  an empty title or the title \<open>N/A\<close>.
\<close>

theorem titled_stubs:
  "(\<forall>j\<in>set (extract_jobs_from_page sp b). title j \<noteq> [] \<and> title j \<noteq> ''N/A'')
   \<and> (\<forall>j\<in>set (fst (collect_links w ps)). title j \<noteq> [] \<and> title j \<noteq> ''N/A'')"
  using extract_jobs_titled collect_links_titled by blast

text \<open>
  A page with two job links, one of them outside any card: only the titled one is kept.
\<close>

theorem titled_stubs_witness:
  "length (job_links ex_mixed_listing) = 2
   \<and> map title (extract_jobs_from_page ex_mixed_listing base_url) = [''Python Developer'']
   \<and> ''N/A'' \<notin> set (map title (extract_jobs_from_page ex_mixed_listing base_url))
   \<and> ''N/A'' \<notin> set (map title (fst (collect_links ex_world_full [1, 2])))"
proof -
  have a: "length (job_links ex_mixed_listing) = 2" by code_simp
  have b: "map title (extract_jobs_from_page ex_mixed_listing base_url) = [''Python Developer'']"
    by code_simp
  from titled_stubs [of ex_mixed_listing base_url ex_world_full "[1, 2]"] a b show ?thesis
    by auto
qed

text \<open>
  \<open>scrape_talent_com\<close> keeps a card that has a link and no title, with the title
  \<open>N/A\<close>, and returns a record with that title.
\<close>

theorem talent_placeholder_title:
  "cards_loop (job_cards ex_talent_listing) = [Stub ''N/A'' ''https://in.talent.com/view?id=41'']
   \<and> map (\<lambda>r. map_of r ''title'') (case fst (scrape_talent_com ex_talent_world 1) of
        Inl e \<Rightarrow> [] | Inr js \<Rightarrow> js) = [Some ''N/A'']"
  by code_simp




text \<open>
  C7. Every record of a list returned by \<open>scrape_all_jobs\<close> or by
  \<open>scrape_talent_com\<close> has exactly the sixteen keys of the schema, in the order of the
  dict literal.
\<close>

theorem records_fully_keyed:
  "(fst (scrape_all_jobs w max_pages) = Inr js \<longrightarrow> (\<forall>r\<in>set js. map fst r = schema_keys))
   \<and> (fst (scrape_talent_com tw page) = Inr js' \<longrightarrow> (\<forall>r\<in>set js'. map fst r = schema_keys))"
proof -
  obtain res evs where r: "scrape_all_jobs w max_pages = (res, evs)"
    by (cases "scrape_all_jobs w max_pages")
  obtain res' evs' where r': "scrape_talent_com tw page = (res', evs')"
    by (cases "scrape_talent_com tw page")
  have a: "fst (scrape_all_jobs w max_pages) = Inr js \<longrightarrow> (\<forall>r\<in>set js. map fst r = schema_keys)"
    using scrape_all_jobs_cases [OF r] r by auto
  have b: "fst (scrape_talent_com tw page) = Inr js' \<longrightarrow> (\<forall>r\<in>set js'. map fst r = schema_keys)"
    using scrape_talent_com_cases [OF r'] r' by auto
  show ?thesis using a b by blast
qed

text \<open>
  One record from each source.
\<close>

theorem records_fully_keyed_witness:
  "\<exists>r r'. fst (scrape_all_jobs ex_world (Some 5)) = Inr [r] \<and> map fst r = schema_keys
     \<and> fst (scrape_talent_com ex_talent_world 1) = Inr [r'] \<and> map fst r' = schema_keys"
proof -
  have "case fst (scrape_all_jobs ex_world (Some 5)) of Inr [r] \<Rightarrow> True | _ \<Rightarrow> False"
    by code_simp
  then obtain r where a: "fst (scrape_all_jobs ex_world (Some 5)) = Inr [r]"
    by (auto split: sum.splits list.splits)
  have "case fst (scrape_talent_com ex_talent_world 1) of Inr [r] \<Rightarrow> True | _ \<Rightarrow> False"
    by code_simp
  then obtain r' where b: "fst (scrape_talent_com ex_talent_world 1) = Inr [r']"
    by (auto split: sum.splits list.splits)
  from records_fully_keyed [of ex_world "Some 5" "[r]" ex_talent_world 1 "[r']"] a b
  show ?thesis by simp
qed




text \<open>
  C9. A cap of 0 is no cap: the run with \<open>max_pages=0\<close> is the run with
  \<open>max_pages=None\<close>. It loads page 1 when the browser starts, and the pages 1 to the
  detected total when neither the first page nor a page of the walk that loads shows
  the no-results text.
\<close>

theorem zero_cap:
  "scrape_all_jobs w (Some 0) = scrape_all_jobs w None
   \<and> (get_driver w = None \<longrightarrow> 1 \<in> set (listing_pages (snd (scrape_all_jobs w (Some 0)))))
   \<and> (\<forall>sp. get_driver w = None \<and> first_page w = Inr sp \<and> \<not> check_for_no_results sp
          \<and> (\<forall>p\<in>{1..get_total_pages sp}. \<forall>s. listing w p = Inr s \<longrightarrow> \<not> check_for_no_results s)
        \<longrightarrow> set (listing_pages (snd (scrape_all_jobs w (Some 0)))) = {1..get_total_pages sp})"
proof -
  have a: "scrape_all_jobs w (Some 0) = scrape_all_jobs w None"
    by (simp add: scrape_all_jobs_def limit_pages_zero split: option.splits sum.splits)
  have b: "1 \<in> set (listing_pages (snd (scrape_all_jobs w (Some 0))))" if "get_driver w = None"
  proof -
    obtain res evs where r: "scrape_all_jobs w (Some 0) = (res, evs)"
      by (cases "scrape_all_jobs w (Some 0)")
    from scrape_all_jobs_cases [OF r] that obtain evs1 where "evs = GetListing 1 # evs1 @ [Quit]"
      by auto
    with r show ?thesis by simp
  qed
  have c: "set (listing_pages (snd (scrape_all_jobs w (Some 0)))) = {1..get_total_pages sp}"
    if h: "get_driver w = None \<and> first_page w = Inr sp \<and> \<not> check_for_no_results sp
          \<and> (\<forall>p\<in>{1..get_total_pages sp}. \<forall>s. listing w p = Inr s \<longrightarrow> \<not> check_for_no_results s)"
    for sp
  proof -
    have lim: "limit_pages (Some 0) (get_total_pages sp) = get_total_pages sp"
      by (simp add: limit_pages_def)
    have "listing_pages (snd (scrape_all_jobs w (Some 0))) = 1 # [1..get_total_pages sp]"
      using scrape_all_jobs_full_walk [of w sp "Some 0"] h lim by simp
    then show ?thesis using get_total_pages_ge [of sp] by auto
  qed
  show ?thesis using a b c by blast
qed

text \<open>
  A site of four result pages with a cap of 0.
\<close>

theorem zero_cap_witness:
  "scrape_all_jobs ex_world_full (Some 0) = scrape_all_jobs ex_world_full None
   \<and> 1 \<in> set (listing_pages (snd (scrape_all_jobs ex_world_full (Some 0))))
   \<and> get_total_pages ex_listing = 4
   \<and> set (listing_pages (snd (scrape_all_jobs ex_world_full (Some 0)))) = {1..4}"
proof -
  have t: "get_total_pages ex_listing = 4" by code_simp
  have n: "\<not> check_for_no_results ex_listing" by code_simp
  have g: "get_driver ex_world_full = None" by (simp add: ex_world_full_def)
  have h: "get_driver ex_world_full = None \<and> first_page ex_world_full = Inr ex_listing
      \<and> \<not> check_for_no_results ex_listing
      \<and> (\<forall>p\<in>{1..get_total_pages ex_listing}. \<forall>s. listing ex_world_full p = Inr s
            \<longrightarrow> \<not> check_for_no_results s)"
    using n by (simp add: ex_world_full_def)
  note z = zero_cap [of ex_world_full]
  from z have 1: "scrape_all_jobs ex_world_full (Some 0) = scrape_all_jobs ex_world_full None"
    by blast
  from z g have 2: "1 \<in> set (listing_pages (snd (scrape_all_jobs ex_world_full (Some 0))))"
    by blast
  from z h have 3: "set (listing_pages (snd (scrape_all_jobs ex_world_full (Some 0))))
      = {1..get_total_pages ex_listing}" by blast
  from 1 2 3 t show ?thesis by simp
qed

text \<open>
  With a cap of 0 too the walk stops at a page with the no-results text, here page 2
  of 4.
\<close>

theorem zero_cap_stops_early:
  "get_total_pages ex_listing = 4
   \<and> listing_pages (snd (scrape_all_jobs ex_world (Some 0))) = [1, 1, 2]"
  by code_simp

end
